theory Spec2Isabelle
  imports Main "HOL-Library.Char_ord" "HOL-Library.List_Lexorder" "HOL-Library.Sublist"
begin

section \<open>The secrets resource of the Secret Server client\<close>

text \<open>
  A shallow embedding of \<^verbatim>\<open>server/secret.go\<close> (and of the second copy of its
  fetch and lookup operations found in \<^verbatim>\<open>unnamed/part_000\<close>).

  Go strings and byte slices are sequences of bytes: both are \<^typ>\<open>string\<close> here, and
  \<^verbatim>\<open>string(data)\<close> is the identity. Go's \<^verbatim>\<open>int\<close> is \<^typ>\<open>int\<close>:
  the code compares identifiers with 0 and prints them, and does no arithmetic on them.
\<close>

subsection \<open>Data model\<close>

type_synonym bytes = string

text \<open>\<^verbatim>\<open>const resource = "secrets"\<close>\<close>

definition resource :: string where
  "resource = ''secrets''"

text \<open>
  \<^verbatim>\<open>type record struct\<close>, local to \<^verbatim>\<open>SecretNameToID\<close>: one record of a search
  response. Its selectors are always written qualified (\<open>search_record.ID\<close>); the
  unqualified names below are those of \<open>Secret\<close>.
\<close>

record search_record =
  ID :: int
  Name :: string
  SecretTemplateID :: int
  SecretTemplateName :: string

text \<open>\<^verbatim>\<open>type SecretField struct\<close>\<close>

record SecretField =
  ItemID :: int
  FieldID :: int
  FileAttachmentID :: int
  FieldDescription :: string
  FieldName :: string
  Filename :: string
  ItemValue :: string
  Slug :: string
  IsFile :: bool
  IsNotes :: bool
  IsPassword :: bool

text \<open>\<^verbatim>\<open>type Secret struct\<close>; \<open>Fields\<close> is \<open>Items\<close> on the wire.\<close>

record Secret =
  Name :: string
  FolderID :: int
  ID :: int
  SiteID :: int
  SecretTemplateID :: int
  SecretPolicyID :: int
  Active :: bool
  CheckedOut :: bool
  CheckOutEnabled :: bool
  Fields :: "SecretField list"

subsection \<open>Errors\<close>

text \<open>
  A Go \<^verbatim>\<open>error\<close> is a value of some dynamic type with an \<^verbatim>\<open>Error()\<close> string.
  Three kinds occur: errors made elsewhere (by the transport or by the JSON decoder),
  which are opaque values \<open>'e\<close> with their message; errors made by \<^verbatim>\<open>fmt.Errorf\<close>,
  which are their message; and \<^verbatim>\<open>type MultipleSecretsFoundError struct\<close>.
\<close>

datatype 'e error =
    ForeignError 'e string
  | Errorf string
  | MultipleSecretsFoundError (IDs: "int list") (searchedName: string)

text \<open>\<^verbatim>\<open>strconv.Itoa\<close> and the verb \<^verbatim>\<open>%d\<close>: decimal digits, with a minus sign.\<close>

function decimal :: "nat \<Rightarrow> string" where
  "decimal n =
     (if n < 10 then [''0123456789'' ! n]
      else decimal (n div 10) @ [''0123456789'' ! (n mod 10)])"
  by pat_completeness auto
termination
  by (relation "measure id") auto

declare decimal.simps [simp del]

definition Itoa :: "int \<Rightarrow> string" where
  "Itoa i = (if i < 0 then CHR ''-'' # decimal (nat (- i)) else decimal (nat i))"

text \<open>
  \<^verbatim>\<open>func (e MultipleSecretsFoundError) Error() string\<close>, with the \<^verbatim>\<open>Error()\<close> of
  the other two kinds.
\<close>

fun Error :: "'e error \<Rightarrow> string" where
  "Error (ForeignError e msg) = msg"
| "Error (Errorf msg) = msg"
| "Error (MultipleSecretsFoundError ids name) =
     ''multiple ('' @ Itoa (int (length ids)) @ '') secrets found with name '' @ name"

subsection \<open>The collaborators\<close>

text \<open>
  \<^verbatim>\<open>s.accessResource(method, resource, path, input)\<close> is defined outside the two files:
  it is a parameter. It talks to the server, so it takes and returns a state \<open>'w\<close> of
  the world; it returns the response bytes (\<open>Inr\<close>) or an error (\<open>Inl\<close>), the bytes
  being ignored by every caller when there is an error. \<^verbatim>\<open>json.Unmarshal\<close> is a parameter
  too, one for each target type.
\<close>

type_synonym request = "string \<times> string \<times> string \<times> bytes option"

type_synonym ('w, 'e) accessor =
  "string \<Rightarrow> string \<Rightarrow> string \<Rightarrow> bytes option \<Rightarrow> 'w \<Rightarrow> ('e error + bytes) \<times> 'w"

type_synonym ('e, 'a) unmarshal = "bytes \<Rightarrow> 'e error + 'a"

text \<open>
  An accessor that also keeps the list of the calls made through it, each with its
  response. It is used to state which requests an operation issues.
\<close>

type_synonym 'e call = "request \<times> ('e error + bytes)"

definition logged :: "('w, 'e) accessor \<Rightarrow> ('e call list \<times> 'w, 'e) accessor" where
  "logged accessResource method res path input =
     (\<lambda>(log, w). case accessResource method res path input w of
        (r, w') \<Rightarrow> (r, (log @ [((method, res, path, input), r)], w')))"

subsection \<open>The query string\<close>

text \<open>
  \<^verbatim>\<open>url.QueryEscape\<close> and \<^verbatim>\<open>url.Values.Encode\<close> of Go's package \<^verbatim>\<open>net/url\<close>, as
  that package defines them for a query component: letters, digits and \<^verbatim>\<open>-_.~\<close> stay,
  a space becomes \<^verbatim>\<open>+\<close>, every other byte becomes \<^verbatim>\<open>%XX\<close> in upper-case
  hexadecimal; the keys are written in sorted order, the pairs joined with \<^verbatim>\<open>&\<close>.
\<close>

definition shouldEscape :: "char \<Rightarrow> bool" where
  "shouldEscape c =
     (if (CHR ''a'' \<le> c \<and> c \<le> CHR ''z'') \<or> (CHR ''A'' \<le> c \<and> c \<le> CHR ''Z'')
         \<or> (CHR ''0'' \<le> c \<and> c \<le> CHR ''9'') then False
      else if c \<in> set ''-_.~'' then False
      else True)"

definition upperhex :: string where
  "upperhex = ''0123456789ABCDEF''"

fun QueryEscape :: "string \<Rightarrow> string" where
  "QueryEscape [] = []"
| "QueryEscape (c # s) =
     (if c = CHR '' '' then ''+''
      else if shouldEscape c
        then [CHR ''%'', upperhex ! (of_char c div 16), upperhex ! (of_char c mod 16)]
      else [c]) @ QueryEscape s"

type_synonym Values = "(string \<times> string list) list"

definition Encode :: "Values \<Rightarrow> string" where
  "Encode v =
     fold (\<lambda>(k, vs) buf.
             fold (\<lambda>v buf. (if buf \<noteq> [] then buf @ ''&'' else buf)
                              @ QueryEscape k @ ''='' @ QueryEscape v) vs buf)
          (sort_key fst v) []"

subsection \<open>Name resolution\<close>

text \<open>
  The loop \<^verbatim>\<open>for i, r := range u.Records { ids[i] = r.ID }\<close> over the records from
  index \<open>i\<close> on.
\<close>

fun ids_range :: "nat \<Rightarrow> search_record list \<Rightarrow> int list \<Rightarrow> int list" where
  "ids_range i [] ids = ids"
| "ids_range i (r # rest) ids = ids_range (i + 1) rest (ids[i := search_record.ID r])"

text \<open>
  \<^verbatim>\<open>func (s Server) SecretNameToID(name string) (int, error)\<close>. The decoder gives
  \<^verbatim>\<open>u.Records\<close>. The result is Go's pair, the error being \<open>None\<close> for \<^verbatim>\<open>nil\<close>.
\<close>

definition Server_SecretNameToID ::
  "('w, 'e) accessor \<Rightarrow> ('e, search_record list) unmarshal \<Rightarrow> string \<Rightarrow> 'w
     \<Rightarrow> (int \<times> 'e error option) \<times> 'w" where
  "Server_SecretNameToID accessResource Unmarshal name w =
     (let filter = Encode [(''filter.searchFieldSlug'', [''name'']),
                           (''filter.searchText'', [name]),
                           (''filter.doNotCalculateTotal'', [''true''])]
      in case accessResource ''GET'' resource (''?'' @ filter) None w of
           (Inr data, w') \<Rightarrow>
             (case Unmarshal data of
                Inl err \<Rightarrow> ((0, Some (Errorf (''unmarshaling response: '' @ Error err))), w')
              | Inr Records \<Rightarrow>
                  if length Records > 1 then
                    (let ids = ids_range 0 Records (replicate (length Records) 0)
                     in ((0, Some (MultipleSecretsFoundError ids name)), w'))
                  else if length Records < 1 then
                    ((0, Some (Errorf (''no secrets found with name '' @ [CHR 0x27] @ name
                                         @ [CHR 0x27]))), w')
                  else ((search_record.ID (Records ! 0), None), w'))
         | (Inl err, w') \<Rightarrow>
             ((0, Some (Errorf (''accessing resource '' @ resource @ '': '' @ Error err))), w'))"

subsection \<open>Fetching a secret\<close>

text \<open>
  The loop \<^verbatim>\<open>for index, element := range secret.Fields\<close> of \<^verbatim>\<open>Server.Secret\<close>,
  over the pairs of index and element still to visit. \<open>secret\<close> is the object being
  updated in place and \<open>sid\<close> is the \<^verbatim>\<open>id\<close> of the source. A turn writes only
  the element at its own index, so the elements still to visit are those of the slice as
  decoded. An accessor error leaves the loop and the function with \<^verbatim>\<open>nil, err\<close>.
\<close>

fun Secret_range ::
  "('w, 'e) accessor \<Rightarrow> int \<Rightarrow> (nat \<times> SecretField) list \<Rightarrow> Secret \<Rightarrow> 'w
     \<Rightarrow> (Secret option \<times> 'e error option) \<times> 'w" where
  "Secret_range accessResource sid [] secret w = ((Some secret, None), w)"
| "Secret_range accessResource sid ((index, element) # rest) secret w =
     (if FileAttachmentID element \<noteq> 0 then
        (let path = Itoa sid @ ''/fields/'' @ Slug element
         in case accessResource ''GET'' resource path None w of
              (Inr data, w') \<Rightarrow>
                Secret_range accessResource sid rest
                  (secret\<lparr>Fields := (Fields secret)
                            [index := (Fields secret ! index)\<lparr>ItemValue := data\<rparr>]\<rparr>) w'
            | (Inl err, w') \<Rightarrow> ((None, Some err), w'))
      else Secret_range accessResource sid rest secret w)"

text \<open>\<^verbatim>\<open>func (s Server) Secret(id int) (*Secret, error)\<close>\<close>

definition Server_Secret ::
  "('w, 'e) accessor \<Rightarrow> ('e, Secret) unmarshal \<Rightarrow> int \<Rightarrow> 'w
     \<Rightarrow> (Secret option \<times> 'e error option) \<times> 'w" where
  "Server_Secret accessResource Unmarshal sid w =
     (case accessResource ''GET'' resource (Itoa sid) None w of
        (Inr data, w') \<Rightarrow>
          (case Unmarshal data of
             Inl err \<Rightarrow>
               ((None, Some (Errorf (''parsing response from /'' @ resource @ ''/'' @ Itoa sid
                                       @ '': '' @ Error err))), w')
           | Inr secret \<Rightarrow>
               Secret_range accessResource sid (enumerate 0 (Fields secret)) secret w')
      | (Inl err, w') \<Rightarrow> ((None, Some err), w'))"

subsection \<open>Field lookup\<close>

text \<open>
  \<^verbatim>\<open>func (s Secret) Field(fieldName string) (string, bool)\<close>: the loop over
  \<^verbatim>\<open>s.Fields\<close> returns at the first field that matches.
\<close>

fun Field_range :: "SecretField list \<Rightarrow> string \<Rightarrow> string \<times> bool" where
  "Field_range [] fieldName = ('''', False)"
| "Field_range (field # rest) fieldName =
     (if fieldName = FieldName field \<or> fieldName = Slug field
      then (ItemValue field, True)
      else Field_range rest fieldName)"

definition Secret_Field :: "Secret \<Rightarrow> string \<Rightarrow> string \<times> bool" where
  "Secret_Field s fieldName = Field_range (Fields s) fieldName"

subsection \<open>The second copy of the fetch and the lookup\<close>

text \<open>
  \<^verbatim>\<open>unnamed/part_000\<close> declares the same two structs and the same constant, and
  defines \<^verbatim>\<open>Server.Secret\<close> and \<^verbatim>\<open>Secret.Field\<close> again; these are its
  definitions, translated on their own.
\<close>

definition resource_part000 :: string where
  "resource_part000 = ''secrets''"

fun Secret_range_part000 ::
  "('w, 'e) accessor \<Rightarrow> int \<Rightarrow> (nat \<times> SecretField) list \<Rightarrow> Secret \<Rightarrow> 'w
     \<Rightarrow> (Secret option \<times> 'e error option) \<times> 'w" where
  "Secret_range_part000 accessResource sid [] secret w = ((Some secret, None), w)"
| "Secret_range_part000 accessResource sid ((index, element) # rest) secret w =
     (if FileAttachmentID element \<noteq> 0 then
        (let path = Itoa sid @ ''/fields/'' @ Slug element
         in case accessResource ''GET'' resource_part000 path None w of
              (Inr data, w') \<Rightarrow>
                Secret_range_part000 accessResource sid rest
                  (secret\<lparr>Fields := (Fields secret)
                            [index := (Fields secret ! index)\<lparr>ItemValue := data\<rparr>]\<rparr>) w'
            | (Inl err, w') \<Rightarrow> ((None, Some err), w'))
      else Secret_range_part000 accessResource sid rest secret w)"

definition Server_Secret_part000 ::
  "('w, 'e) accessor \<Rightarrow> ('e, Secret) unmarshal \<Rightarrow> int \<Rightarrow> 'w
     \<Rightarrow> (Secret option \<times> 'e error option) \<times> 'w" where
  "Server_Secret_part000 accessResource Unmarshal sid w =
     (case accessResource ''GET'' resource_part000 (Itoa sid) None w of
        (Inr data, w') \<Rightarrow>
          (case Unmarshal data of
             Inl err \<Rightarrow>
               ((None, Some (Errorf (''parsing response from /'' @ resource_part000 @ ''/''
                                       @ Itoa sid @ '': '' @ Error err))), w')
           | Inr secret \<Rightarrow>
               Secret_range_part000 accessResource sid (enumerate 0 (Fields secret)) secret w')
      | (Inl err, w') \<Rightarrow> ((None, Some err), w'))"

fun Field_range_part000 :: "SecretField list \<Rightarrow> string \<Rightarrow> string \<times> bool" where
  "Field_range_part000 [] fieldName = ('''', False)"
| "Field_range_part000 (field # rest) fieldName =
     (if fieldName = FieldName field \<or> fieldName = Slug field
      then (ItemValue field, True)
      else Field_range_part000 rest fieldName)"

definition Secret_Field_part000 :: "Secret \<Rightarrow> string \<Rightarrow> string \<times> bool" where
  "Secret_Field_part000 s fieldName = Field_range_part000 (Fields s) fieldName"

subsection \<open>Requests, and a small server to run the operations on\<close>

text \<open>The request of the attachment fetch for a field, and the test for an attachment.\<close>

definition attachment_request :: "int \<Rightarrow> SecretField \<Rightarrow> request" where
  "attachment_request sid f = (''GET'', ''secrets'', Itoa sid @ ''/fields/'' @ Slug f, None)"

definition has_attachment :: "SecretField \<Rightarrow> bool" where
  "has_attachment f = (FileAttachmentID f \<noteq> 0)"

text \<open>The query of the name search, as \<^verbatim>\<open>SecretNameToID\<close> builds it.\<close>

definition search_filter :: "string \<Rightarrow> string" where
  "search_filter name = Encode [(''filter.searchFieldSlug'', [''name'']),
                                (''filter.searchText'', [name]),
                                (''filter.doNotCalculateTotal'', [''true''])]"

text \<open>Go's zero values of the two structs, from which the examples are built.\<close>

definition zero_SecretField :: SecretField where
  "zero_SecretField =
     \<lparr>ItemID = 0, FieldID = 0, FileAttachmentID = 0, FieldDescription = [], FieldName = [],
      Filename = [], ItemValue = [], Slug = [], IsFile = False, IsNotes = False,
      IsPassword = False\<rparr>"

definition zero_Secret :: Secret where
  "zero_Secret =
     \<lparr>Name = [], FolderID = 0, ID = 0, SiteID = 0, SecretTemplateID = 0, SecretPolicyID = 0,
      Active = False, CheckedOut = False, CheckOutEnabled = False, Fields = []\<rparr>"

definition zero_record :: search_record where
  "zero_record =
     \<lparr>search_record.ID = 0, Name = [], SecretTemplateID = 0, SecretTemplateName = []\<rparr>"

text \<open>
  A server with four secrets. Secret 5 has a plain password; secret 7 has a file whose
  attachment can be fetched; secret 8 has a plain field, a file that can be fetched and a
  file that cannot; the response for secret 9 is not JSON. The state of the world is
  the number of calls made.
\<close>

definition secret5 :: Secret where
  "secret5 = zero_Secret\<lparr>ID := 5, Fields :=
     [zero_SecretField\<lparr>FieldName := ''password'', ItemValue := ''p@ss''\<rparr>]\<rparr>"

definition secret7 :: Secret where
  "secret7 = zero_Secret\<lparr>ID := 7, Fields :=
     [zero_SecretField\<lparr>Slug := ''notes-file'', FileAttachmentID := 42,
        ItemValue := ''<placeholder>''\<rparr>]\<rparr>"

definition secret8 :: Secret where
  "secret8 = zero_Secret\<lparr>ID := 8, Fields :=
     [zero_SecretField\<lparr>Slug := ''user'', ItemValue := ''root''\<rparr>,
      zero_SecretField\<lparr>Slug := ''key'', FileAttachmentID := 3, ItemValue := ''<file>''\<rparr>,
      zero_SecretField\<lparr>Slug := ''cert'', FileAttachmentID := 4, ItemValue := ''<file>''\<rparr>]\<rparr>"

definition test_accessor :: "(nat, unit) accessor" where
  "test_accessor method res path input w =
     (if method = ''GET'' \<and> res = ''secrets'' \<and> input = None then
        (if path = ''5'' then (Inr ''{secret 5}'', Suc w)
         else if path = ''7'' then (Inr ''{secret 7}'', Suc w)
         else if path = ''7/fields/notes-file'' then (Inr ''hello world'', Suc w)
         else if path = ''8'' then (Inr ''{secret 8}'', Suc w)
         else if path = ''8/fields/key'' then (Inr ''-----BEGIN'', Suc w)
         else if path = ''9'' then (Inr ''<html>'', Suc w)
         else if path = ''?filter.doNotCalculateTotal=true&filter.searchFieldSlug=name''
                          @ ''&filter.searchText=db-creds''
           then (Inr ''{two records}'', Suc w)
         else if path = ''?filter.doNotCalculateTotal=true&filter.searchFieldSlug=name''
                          @ ''&filter.searchText=web''
           then (Inr ''{one record}'', Suc w)
         else if path = ''?filter.doNotCalculateTotal=true&filter.searchFieldSlug=name''
                          @ ''&filter.searchText=nothing''
           then (Inr ''{no records}'', Suc w)
         else (Inl (ForeignError () ''404 Not Found''), Suc w))
      else (Inl (ForeignError () ''400 Bad Request''), Suc w))"

definition test_Unmarshal_Secret :: "(unit, Secret) unmarshal" where
  "test_Unmarshal_Secret data =
     (if data = ''{secret 5}'' then Inr secret5
      else if data = ''{secret 7}'' then Inr secret7
      else if data = ''{secret 8}'' then Inr secret8
      else Inl (ForeignError () ''invalid character''))"

definition test_Unmarshal_Records :: "(unit, search_record list) unmarshal" where
  "test_Unmarshal_Records data =
     (if data = ''{two records}''
        then Inr [zero_record\<lparr>search_record.ID := 10\<rparr>, zero_record\<lparr>search_record.ID := 11\<rparr>]
      else if data = ''{one record}'' then Inr [zero_record\<lparr>search_record.ID := 12\<rparr>]
      else if data = ''{no records}'' then Inr []
      else Inl (ForeignError () ''invalid character''))"

text \<open>A secret for the lookup: the slug of its second field is the name of its third.\<close>

definition secret_lookup :: Secret where
  "secret_lookup = zero_Secret\<lparr>Fields :=
     [zero_SecretField\<lparr>FieldName := ''Password'', Slug := ''pw'', ItemValue := ''a''\<rparr>,
      zero_SecretField\<lparr>FieldName := ''Notes'', Slug := ''password'', ItemValue := ''b''\<rparr>,
      zero_SecretField\<lparr>FieldName := ''password'', Slug := ''p2'', ItemValue := ''c''\<rparr>]\<rparr>"

text \<open>
  How the loop of \<^verbatim>\<open>Server.Secret\<close> leaves a field: one without an attachment as it
  was, one with an attachment with a new \<open>ItemValue\<close> and nothing else changed.
\<close>

definition substituted :: "SecretField \<Rightarrow> SecretField \<Rightarrow> bool" where
  "substituted x f = (f = (if has_attachment x then x\<lparr>ItemValue := ItemValue f\<rparr> else x))"

section \<open>Properties\<close>

subsection \<open>The query string and the identifiers of the records\<close>

lemma search_filter_text:
  "search_filter name =
     ''filter.doNotCalculateTotal=true&filter.searchFieldSlug=name&filter.searchText=''
       @ QueryEscape name"
  by (simp add: search_filter_def Encode_def shouldEscape_def upperhex_def)

lemma ids_range_map:
  "i + length rs = length ids \<Longrightarrow> ids_range i rs ids = take i ids @ map search_record.ID rs"
proof (induction rs arbitrary: i ids)
  case Nil
  then show ?case by simp
next
  case (Cons r rs)
  have "ids_range (i + 1) rs (ids[i := search_record.ID r])
          = take (i + 1) (ids[i := search_record.ID r]) @ map search_record.ID rs"
    using Cons.prems by (intro Cons.IH) simp
  moreover have "take (i + 1) (ids[i := search_record.ID r]) = take i ids @ [search_record.ID r]"
    using Cons.prems by (simp add: take_Suc_conv_app_nth)
  ultimately show ?case by simp
qed

lemma ids_range_all:
  "ids_range 0 rs (replicate (length rs) 0) = map search_record.ID rs"
  by (simp add: ids_range_map)

subsection \<open>The lookup loop\<close>

lemma Field_range_first:
  "i < length fs \<Longrightarrow> n = FieldName (fs ! i) \<or> n = Slug (fs ! i)
     \<Longrightarrow> \<forall>j<i. n \<noteq> FieldName (fs ! j) \<and> n \<noteq> Slug (fs ! j)
     \<Longrightarrow> Field_range fs n = (ItemValue (fs ! i), True)"
proof (induction fs arbitrary: i)
  case Nil
  then show ?case by simp
next
  case (Cons f fs)
  show ?case
  proof (cases i)
    case 0
    with Cons.prems show ?thesis by auto
  next
    case (Suc k)
    with Cons.prems have "n \<noteq> FieldName f \<and> n \<noteq> Slug f" by auto
    moreover have "Field_range fs n = (ItemValue (fs ! k), True)"
      using Cons.prems Suc by (intro Cons.IH) auto
    ultimately show ?thesis using Suc by simp
  qed
qed

lemma Field_range_none:
  "\<forall>f\<in>set fs. n \<noteq> FieldName f \<and> n \<noteq> Slug f \<Longrightarrow> Field_range fs n = ('''', False)"
  by (induction fs) auto

subsection \<open>The two copies\<close>

lemma Secret_range_part000_eq:
  "Secret_range_part000 accessResource sid es secret w = Secret_range accessResource sid es secret w"
  by (induction accessResource sid es secret w rule: Secret_range.induct)
     (simp_all add: resource_def resource_part000_def split: prod.splits sum.splits)

lemma Field_range_part000_eq: "Field_range_part000 fs n = Field_range fs n"
  by (induction fs) simp_all

subsection \<open>The attachment loop under the logging accessor\<close>

lemma drop_Cons_nth:
  assumes "drop n l = x # xs"
  shows "n < length l" and "l ! n = x" and "drop (Suc n) l = xs"
proof -
  show n: "n < length l"
    using assms by (cases "n < length l") auto
  from Cons_nth_drop_Suc [OF n] assms show "l ! n = x" and "drop (Suc n) l = xs"
    by auto
qed

lemma has_attachment_ItemValue [simp]:
  "has_attachment (f\<lparr>ItemValue := v\<rparr>) = has_attachment f"
  by (simp add: has_attachment_def)

lemma attachment_request_ItemValue [simp]:
  "attachment_request sid (f\<lparr>ItemValue := v\<rparr>) = attachment_request sid f"
  by (simp add: attachment_request_def)

text \<open>One turn of the loop, under the logging accessor.\<close>

lemma Secret_range_logged_step:
  "Secret_range (logged acc) sid ((n, x) # es) secret (log, w) =
     (if has_attachment x then
        (case acc ''GET'' ''secrets'' (Itoa sid @ ''/fields/'' @ Slug x) None w of
           (Inr data, w1) \<Rightarrow>
             Secret_range (logged acc) sid es
               (secret\<lparr>Fields := (Fields secret)[n := (Fields secret ! n)\<lparr>ItemValue := data\<rparr>]\<rparr>)
               (log @ [(attachment_request sid x, Inr data)], w1)
         | (Inl err, w1) \<Rightarrow>
             ((None, Some err), (log @ [(attachment_request sid x, Inl err)], w1)))
      else Secret_range (logged acc) sid es secret (log, w))"
  by (simp add: logged_def has_attachment_def attachment_request_def resource_def
        split: prod.splits sum.splits)

lemma Secret_range_logged_Some:
  assumes "Secret_range (logged acc) sid (enumerate n xs) secret (log, w) = ((Some s, e), (log', w'))"
    and "drop n (Fields secret) = xs"
  shows "e = None \<and> (\<exists>fs. s = secret\<lparr>Fields := take n (Fields secret) @ fs\<rparr>
           \<and> list_all2 substituted xs fs
           \<and> log' = log @ map (\<lambda>f. (attachment_request sid f, Inr (ItemValue f)))
                            (filter has_attachment fs))"
  using assms
proof (induction xs arbitrary: n secret log w)
  case Nil
  then show ?case by simp
next
  case (Cons x xs)
  note d = drop_Cons_nth [OF Cons.prems(2)]
  show ?case
  proof (cases "has_attachment x")
    case False
    from Cons.prems(1) False
    have run: "Secret_range (logged acc) sid (enumerate (Suc n) xs) secret (log, w)
                 = ((Some s, e), (log', w'))"
      by (simp add: Secret_range_logged_step del: Secret_range.simps(2))
    from Cons.IH [OF run d(3)] obtain fs where
      fs: "e = None" "s = secret\<lparr>Fields := take (Suc n) (Fields secret) @ fs\<rparr>"
        "list_all2 substituted xs fs"
        "log' = log @ map (\<lambda>f. (attachment_request sid f, Inr (ItemValue f)))
                        (filter has_attachment fs)"
      by blast
    have "take (Suc n) (Fields secret) = take n (Fields secret) @ [x]"
      using d by (simp add: take_Suc_conv_app_nth)
    with fs False have "s = secret\<lparr>Fields := take n (Fields secret) @ (x # fs)\<rparr>
        \<and> list_all2 substituted (x # xs) (x # fs)
        \<and> log' = log @ map (\<lambda>f. (attachment_request sid f, Inr (ItemValue f)))
                        (filter has_attachment (x # fs))"
      by (simp add: substituted_def)
    with fs(1) show ?thesis by blast
  next
    case True
    obtain resp w1 where
      acc: "acc ''GET'' ''secrets'' (Itoa sid @ ''/fields/'' @ Slug x) None w = (resp, w1)"
      by (cases "acc ''GET'' ''secrets'' (Itoa sid @ ''/fields/'' @ Slug x) None w")
    show ?thesis
    proof (cases resp)
      case (Inl err)
      with Cons.prems(1) True acc show ?thesis
        by (simp add: Secret_range_logged_step del: Secret_range.simps(2))
    next
      case (Inr data)
      let ?x = "x\<lparr>ItemValue := data\<rparr>"
      let ?secret = "secret\<lparr>Fields := (Fields secret)[n := ?x]\<rparr>"
      from Cons.prems(1) True acc Inr d(2)
      have run: "Secret_range (logged acc) sid (enumerate (Suc n) xs) ?secret
                   (log @ [(attachment_request sid x, Inr data)], w1)
                 = ((Some s, e), (log', w'))"
        by (simp add: Secret_range_logged_step del: Secret_range.simps(2))
      have dr: "drop (Suc n) (Fields ?secret) = xs"
        using d(3) by simp
      from Cons.IH [OF run dr] obtain fs where
        fs: "e = None" "s = ?secret\<lparr>Fields := take (Suc n) (Fields ?secret) @ fs\<rparr>"
          "list_all2 substituted xs fs"
          "log' = (log @ [(attachment_request sid x, Inr data)])
                    @ map (\<lambda>f. (attachment_request sid f, Inr (ItemValue f)))
                        (filter has_attachment fs)"
        by blast
      have "take (Suc n) (Fields ?secret) = take n (Fields secret) @ [?x]"
        using d(1) by (simp add: take_Suc_conv_app_nth)
      with fs True have "s = secret\<lparr>Fields := take n (Fields secret) @ (?x # fs)\<rparr>
          \<and> list_all2 substituted (x # xs) (?x # fs)
          \<and> log' = log @ map (\<lambda>f. (attachment_request sid f, Inr (ItemValue f)))
                          (filter has_attachment (?x # fs))"
        by (simp add: substituted_def)
      with fs(1) show ?thesis by blast
    qed
  qed
qed

lemma Secret_range_logged_None:
  assumes "Secret_range (logged acc) sid (enumerate n xs) secret (log, w) = ((None, e), (log', w'))"
  shows "\<exists>err oks req. e = Some err \<and> log' = log @ oks @ [(req, Inl err)]
           \<and> (\<forall>c\<in>set oks. \<exists>d. snd c = Inr d)"
  using assms
proof (induction xs arbitrary: n secret log w)
  case Nil
  then show ?case by simp
next
  case (Cons x xs)
  show ?case
  proof (cases "has_attachment x")
    case False
    with Cons.prems have "Secret_range (logged acc) sid (enumerate (Suc n) xs) secret (log, w)
                 = ((None, e), (log', w'))"
      by (simp add: Secret_range_logged_step del: Secret_range.simps(2))
    from Cons.IH [OF this] show ?thesis .
  next
    case True
    obtain resp w1 where
      acc: "acc ''GET'' ''secrets'' (Itoa sid @ ''/fields/'' @ Slug x) None w = (resp, w1)"
      by (cases "acc ''GET'' ''secrets'' (Itoa sid @ ''/fields/'' @ Slug x) None w")
    show ?thesis
    proof (cases resp)
      case (Inl err)
      with Cons.prems True acc
      have "e = Some err \<and> log' = log @ [] @ [(attachment_request sid x, Inl err)]
              \<and> (\<forall>c\<in>set []. \<exists>d. snd c = Inr d)"
        by (simp add: Secret_range_logged_step del: Secret_range.simps(2))
      then show ?thesis by blast
    next
      case (Inr data)
      with Cons.prems True acc
      have "Secret_range (logged acc) sid (enumerate (Suc n) xs)
              (secret\<lparr>Fields := (Fields secret)[n := (Fields secret ! n)\<lparr>ItemValue := data\<rparr>]\<rparr>)
              (log @ [(attachment_request sid x, Inr data)], w1)
            = ((None, e), (log', w'))"
        by (simp add: Secret_range_logged_step del: Secret_range.simps(2))
      from Cons.IH [OF this] obtain err oks req where
        r: "e = Some err"
          "log' = (log @ [(attachment_request sid x, Inr data)]) @ oks @ [(req, Inl err)]"
          "\<forall>c\<in>set oks. \<exists>d. snd c = Inr d"
        by blast
      then have "e = Some err
          \<and> log' = log @ ((attachment_request sid x, Inr data) # oks) @ [(req, Inl err)]
          \<and> (\<forall>c\<in>set ((attachment_request sid x, Inr data) # oks). \<exists>d. snd c = Inr d)"
        by simp
      then show ?thesis by blast
    qed
  qed
qed

lemma Secret_range_logged_requests:
  assumes "Secret_range (logged acc) sid (enumerate n xs) secret (log, w) = (res, (log', w'))"
  shows "\<exists>calls. log' = log @ calls
           \<and> prefix (map fst calls) (map (attachment_request sid) (filter has_attachment xs))"
  using assms
proof (induction xs arbitrary: n secret log w)
  case Nil
  then show ?case by simp
next
  case (Cons x xs)
  show ?case
  proof (cases "has_attachment x")
    case False
    with Cons.prems have "Secret_range (logged acc) sid (enumerate (Suc n) xs) secret (log, w)
                 = (res, (log', w'))"
      by (simp add: Secret_range_logged_step del: Secret_range.simps(2))
    from Cons.IH [OF this] False show ?thesis by simp
  next
    case True
    obtain resp w1 where
      acc: "acc ''GET'' ''secrets'' (Itoa sid @ ''/fields/'' @ Slug x) None w = (resp, w1)"
      by (cases "acc ''GET'' ''secrets'' (Itoa sid @ ''/fields/'' @ Slug x) None w")
    show ?thesis
    proof (cases resp)
      case (Inl err)
      with Cons.prems True acc
      have "log' = log @ [(attachment_request sid x, Inl err)]"
        by (auto simp add: Secret_range_logged_step simp del: Secret_range.simps(2))
      moreover have "prefix (map fst [(attachment_request sid x, Inl err)])
                       (map (attachment_request sid) (filter has_attachment (x # xs)))"
        using True by simp
      ultimately show ?thesis by blast
    next
      case (Inr data)
      with Cons.prems True acc
      have "Secret_range (logged acc) sid (enumerate (Suc n) xs)
              (secret\<lparr>Fields := (Fields secret)[n := (Fields secret ! n)\<lparr>ItemValue := data\<rparr>]\<rparr>)
              (log @ [(attachment_request sid x, Inr data)], w1)
            = (res, (log', w'))"
        by (simp add: Secret_range_logged_step del: Secret_range.simps(2))
      from Cons.IH [OF this] obtain calls where
        c: "log' = (log @ [(attachment_request sid x, Inr data)]) @ calls"
          "prefix (map fst calls) (map (attachment_request sid) (filter has_attachment xs))"
        by blast
      then have "log' = log @ ((attachment_request sid x, Inr data) # calls)
          \<and> prefix (map fst ((attachment_request sid x, Inr data) # calls))
               (map (attachment_request sid) (filter has_attachment (x # xs)))"
        using True by simp
      then show ?thesis by blast
    qed
  qed
qed


lemma Secret_range_logged_run:
  "Secret_range (logged acc) sid es secret (log, w) = (res, (log', w'))
     \<Longrightarrow> Secret_range acc sid es secret w = (res, w')"
proof (induction es arbitrary: secret log w)
  case Nil
  then show ?case by simp
next
  case (Cons a es)
  obtain n x where a: "a = (n, x)" by (cases a)
  show ?case
  proof (cases "has_attachment x")
    case False
    with Cons.prems a have "Secret_range (logged acc) sid es secret (log, w) = (res, (log', w'))"
      by (simp add: Secret_range_logged_step del: Secret_range.simps(2))
    from Cons.IH [OF this] False a show ?thesis by (simp add: has_attachment_def)
  next
    case True
    obtain resp w1 where
      acc: "acc ''GET'' ''secrets'' (Itoa sid @ ''/fields/'' @ Slug x) None w = (resp, w1)"
      by (cases "acc ''GET'' ''secrets'' (Itoa sid @ ''/fields/'' @ Slug x) None w")
    show ?thesis
    proof (cases resp)
      case (Inl err)
      with Cons.prems True acc a have "res = (None, Some err)" and "w' = w1"
        by (auto simp add: Secret_range_logged_step simp del: Secret_range.simps(2))
      with True acc a Inl show ?thesis
        by (simp add: has_attachment_def resource_def)
    next
      case (Inr data)
      with Cons.prems True acc a
      have "Secret_range (logged acc) sid es
              (secret\<lparr>Fields := (Fields secret)[n := (Fields secret ! n)\<lparr>ItemValue := data\<rparr>]\<rparr>)
              (log @ [(attachment_request sid x, Inr data)], w1)
            = (res, (log', w'))"
        by (simp add: Secret_range_logged_step del: Secret_range.simps(2))
      from Cons.IH [OF this] True acc a Inr show ?thesis
        by (simp add: has_attachment_def resource_def)
    qed
  qed
qed

lemma Server_Secret_logged:
  "Server_Secret (logged acc) U sid (log, w) =
     (case acc ''GET'' ''secrets'' (Itoa sid) None w of
        (Inr data, w1) \<Rightarrow>
          (case U data of
             Inl err \<Rightarrow>
               ((None, Some (Errorf (''parsing response from /secrets/'' @ Itoa sid @ '': ''
                                       @ Error err))),
                (log @ [((''GET'', ''secrets'', Itoa sid, None), Inr data)], w1))
           | Inr secret \<Rightarrow>
               Secret_range (logged acc) sid (enumerate 0 (Fields secret)) secret
                 (log @ [((''GET'', ''secrets'', Itoa sid, None), Inr data)], w1))
      | (Inl err, w1) \<Rightarrow>
          ((None, Some err), (log @ [((''GET'', ''secrets'', Itoa sid, None), Inl err)], w1)))"
  by (simp add: Server_Secret_def logged_def resource_def split: prod.splits sum.splits)

lemma Server_Secret_logged_run:
  assumes "Server_Secret (logged acc) U sid (log, w) = (res, (log', w'))"
  shows "Server_Secret acc U sid w = (res, w')"
proof -
  obtain resp w1 where acc: "acc ''GET'' ''secrets'' (Itoa sid) None w = (resp, w1)"
    by (cases "acc ''GET'' ''secrets'' (Itoa sid) None w")
  show ?thesis
  proof (cases resp)
    case (Inl err)
    with assms acc have "res = (None, Some err)" and "w' = w1"
      by (auto simp add: Server_Secret_logged)
    with acc Inl show ?thesis
      by (simp add: Server_Secret_def resource_def)
  next
    case (Inr data)
    show ?thesis
    proof (cases "U data")
      case (Inl err)
      with assms acc Inr
      have "res = (None, Some (Errorf (''parsing response from /secrets/'' @ Itoa sid @ '': ''
                                         @ Error err)))" and "w' = w1"
        by (auto simp add: Server_Secret_logged)
      with acc Inr Inl show ?thesis
        by (simp add: Server_Secret_def resource_def)
    next
      case decoded: (Inr secret)
      with assms acc Inr
      have "Secret_range (logged acc) sid (enumerate 0 (Fields secret)) secret
              (log @ [((''GET'', ''secrets'', Itoa sid, None), Inr data)], w1)
            = (res, (log', w'))"
        by (simp add: Server_Secret_logged)
      from Secret_range_logged_run [OF this] acc Inr decoded show ?thesis
        by (simp add: Server_Secret_def resource_def)
    qed
  qed
qed

text \<open>
  A fetch whose first call and decoding succeed is a run of the loop, and the calls
  after the first are those of the loop.
\<close>

lemma Server_Secret_logged_loop:
  assumes "Server_Secret (logged acc) U sid (log, w) = (res, (log', w'))"
    and "acc ''GET'' ''secrets'' (Itoa sid) None w = (Inr data, w1)"
    and "U data = Inr decoded"
  shows "Secret_range (logged acc) sid (enumerate 0 (Fields decoded)) decoded
           (log @ [((''GET'', ''secrets'', Itoa sid, None), Inr data)], w1) = (res, (log', w'))"
    and "log' = (log @ [((''GET'', ''secrets'', Itoa sid, None), Inr data)])
                  @ drop (Suc (length log)) log'"
proof -
  show run: "Secret_range (logged acc) sid (enumerate 0 (Fields decoded)) decoded
           (log @ [((''GET'', ''secrets'', Itoa sid, None), Inr data)], w1) = (res, (log', w'))"
    using assms by (simp add: Server_Secret_logged)
  from Secret_range_logged_requests [OF run] obtain calls where
    "log' = (log @ [((''GET'', ''secrets'', Itoa sid, None), Inr data)]) @ calls"
    by blast
  then show "log' = (log @ [((''GET'', ''secrets'', Itoa sid, None), Inr data)])
                  @ drop (Suc (length log)) log'"
    by simp
qed

text \<open>A fetch that makes a call after the first, or returns a secret, got that far.\<close>

lemma Server_Secret_logged_reaches_loop:
  assumes "Server_Secret (logged acc) U sid (log, w) = ((r, e), (log', w'))"
    and "r \<noteq> None \<or> drop (Suc (length log)) log' \<noteq> []"
  shows "\<exists>data w1 decoded. acc ''GET'' ''secrets'' (Itoa sid) None w = (Inr data, w1)
           \<and> U data = Inr decoded"
proof -
  obtain resp w1 where acc: "acc ''GET'' ''secrets'' (Itoa sid) None w = (resp, w1)"
    by (cases "acc ''GET'' ''secrets'' (Itoa sid) None w")
  show ?thesis
  proof (cases resp)
    case (Inl err)
    with assms acc show ?thesis by (auto simp add: Server_Secret_logged)
  next
    case (Inr data)
    with assms acc show ?thesis
      by (cases "U data") (auto simp add: Server_Secret_logged)
  qed
qed

lemma substituted_requests:
  "list_all2 substituted xs fs
     \<Longrightarrow> map (attachment_request sid) (filter has_attachment fs)
         = map (attachment_request sid) (filter has_attachment xs)"
proof (induction rule: list_all2_induct)
  case Nil
  then show ?case by simp
next
  case (Cons x xs f fs)
  from Cons.hyps(1) have "has_attachment f = has_attachment x"
    and "attachment_request sid f = attachment_request sid x"
    by (auto simp add: substituted_def split: if_splits) (metis has_attachment_ItemValue, metis attachment_request_ItemValue)
  with Cons.IH show ?case by simp
qed

section \<open>The claims\<close>

subsection \<open>Fetching a secret\<close>

text \<open>
  C1. When the fetch of a secret succeeds, every field of the returned secret with
  \<open>FileAttachmentID \<noteq> 0\<close> holds, as its \<open>ItemValue\<close>, the bytes that the accessor
  returned for \<^verbatim>\<open>GET secrets {id}/fields/{slug}\<close>. Stated on the log of calls: the
  calls after the first one are, in order, exactly one per such field of the returned
  secret, each a success whose bytes are the \<open>ItemValue\<close> of that field; so each such
  field has its call in the log, and no error is returned with the secret.
\<close>

theorem Secret_attachments_substituted:
  assumes "Server_Secret (logged accessResource) Unmarshal sid (log, w) = ((Some s, e), (log', w'))"
  shows "e = None
     \<and> drop (Suc (length log)) log'
         = map (\<lambda>f. ((''GET'', ''secrets'', Itoa sid @ ''/fields/'' @ Slug f, None),
                      Inr (ItemValue f)))
             (filter (\<lambda>f. FileAttachmentID f \<noteq> 0) (Fields s))
     \<and> (\<forall>f\<in>set (Fields s). FileAttachmentID f \<noteq> 0 \<longrightarrow>
           ((''GET'', ''secrets'', Itoa sid @ ''/fields/'' @ Slug f, None), Inr (ItemValue f))
             \<in> set (drop (Suc (length log)) log'))"
proof -
  from Server_Secret_logged_reaches_loop [OF assms] obtain data w1 decoded where
    first: "accessResource ''GET'' ''secrets'' (Itoa sid) None w = (Inr data, w1)"
      "Unmarshal data = Inr decoded"
    by auto
  note loop = Server_Secret_logged_loop [OF assms first]
  from Secret_range_logged_Some [OF loop(1)] obtain fs where
    fs: "e = None" "s = decoded\<lparr>Fields := fs\<rparr>"
      "log' = (log @ [((''GET'', ''secrets'', Itoa sid, None), Inr data)])
                @ map (\<lambda>f. (attachment_request sid f, Inr (ItemValue f)))
                    (filter has_attachment fs)"
    by auto
  have calls: "drop (Suc (length log)) log'
         = map (\<lambda>f. ((''GET'', ''secrets'', Itoa sid @ ''/fields/'' @ Slug f, None),
                      Inr (ItemValue f)))
             (filter (\<lambda>f. FileAttachmentID f \<noteq> 0) (Fields s))"
    unfolding fs(3) using fs(2)
    by (simp add: attachment_request_def has_attachment_def [abs_def])
  show ?thesis
    unfolding calls using fs(1) by auto
qed

theorem Secret_attachments_substituted_witness:
  "Server_Secret (logged test_accessor) test_Unmarshal_Secret 7 ([], 0)
     = ((Some (secret7\<lparr>Fields := [(Fields secret7 ! 0)\<lparr>ItemValue := ''hello world''\<rparr>]\<rparr>), None),
        ([((''GET'', ''secrets'', ''7'', None), Inr ''{secret 7}''),
          ((''GET'', ''secrets'', ''7/fields/notes-file'', None), Inr ''hello world'')], 2))
   \<and> FileAttachmentID ((Fields secret7 ! 0)\<lparr>ItemValue := ''hello world''\<rparr>) = 42
   \<and> ((''GET'', ''secrets'', ''7/fields/notes-file'', None), Inr ''hello world'')
       \<in> set (drop (Suc (length ([] :: unit call list)))
                 [((''GET'', ''secrets'', ''7'', None), Inr ''{secret 7}''),
                  ((''GET'', ''secrets'', ''7/fields/notes-file'', None), Inr ''hello world'')])"
proof -
  have run: "Server_Secret (logged test_accessor) test_Unmarshal_Secret 7 ([], 0)
     = ((Some (secret7\<lparr>Fields := [(Fields secret7 ! 0)\<lparr>ItemValue := ''hello world''\<rparr>]\<rparr>), None),
        ([((''GET'', ''secrets'', ''7'', None), Inr ''{secret 7}''),
          ((''GET'', ''secrets'', ''7/fields/notes-file'', None), Inr ''hello world'')], 2))"
    by (simp add: Server_Secret_def logged_def test_accessor_def test_Unmarshal_Secret_def
          secret7_def zero_Secret_def zero_SecretField_def resource_def Itoa_def decimal.simps)
  from Secret_attachments_substituted [OF run] run show ?thesis
    by (simp add: secret7_def zero_Secret_def zero_SecretField_def Itoa_def decimal.simps)
qed

text \<open>
  C2. When a call after the first one (an attachment fetch) fails, the fetch returns
  that error and no secret.
\<close>

theorem Secret_attachment_failure:
  assumes "Server_Secret (logged accessResource) Unmarshal sid (log, w) = ((r, e), (log', w'))"
    and "(req, Inl err) \<in> set (drop (Suc (length log)) log')"
  shows "r = None \<and> e = Some err"
proof -
  from assms(2) have "drop (Suc (length log)) log' \<noteq> []" by auto
  with Server_Secret_logged_reaches_loop [OF assms(1)] obtain data w1 decoded where
    first: "accessResource ''GET'' ''secrets'' (Itoa sid) None w = (Inr data, w1)"
      "Unmarshal data = Inr decoded"
    by auto
  note loop = Server_Secret_logged_loop [OF assms(1) first]
  let ?log = "log @ [((''GET'', ''secrets'', Itoa sid, None), Inr data)]"
  show ?thesis
  proof (cases r)
    case (Some s)
    with Secret_range_logged_Some [of accessResource sid 0 "Fields decoded" decoded ?log w1 s e log' w']
      loop(1)
    obtain fs where "log' = ?log @ map (\<lambda>f. (attachment_request sid f, Inr (ItemValue f)))
                                     (filter has_attachment fs)"
      by auto
    then have "drop (Suc (length log)) log'
                 = map (\<lambda>f. (attachment_request sid f, Inr (ItemValue f))) (filter has_attachment fs)"
      by simp
    with assms(2) show ?thesis by auto
  next
    case None
    with Secret_range_logged_None [of accessResource sid 0 "Fields decoded" decoded ?log w1 e log' w']
      loop(1)
    obtain err' oks req' where
      f: "e = Some err'" "log' = ?log @ oks @ [(req', Inl err')]"
        "\<forall>c\<in>set oks. \<exists>d. snd c = Inr d"
      by auto
    from f(2) have "drop (Suc (length log)) log' = oks @ [(req', Inl err')]"
      by simp
    with assms(2) f(3) have "err = err'" by auto
    with f(1) None show ?thesis by simp
  qed
qed

theorem Secret_attachment_failure_witness:
  "Server_Secret (logged test_accessor) test_Unmarshal_Secret 8 ([], 0)
     = ((None, Some (ForeignError () ''404 Not Found'')),
        ([((''GET'', ''secrets'', ''8'', None), Inr ''{secret 8}''),
          ((''GET'', ''secrets'', ''8/fields/key'', None), Inr ''-----BEGIN''),
          ((''GET'', ''secrets'', ''8/fields/cert'', None),
           Inl (ForeignError () ''404 Not Found''))], 3))
   \<and> ((''GET'', ''secrets'', ''8/fields/cert'', None), Inl (ForeignError () ''404 Not Found''))
       \<in> set (drop (Suc (length ([] :: unit call list)))
                 [((''GET'', ''secrets'', ''8'', None), Inr ''{secret 8}''),
                  ((''GET'', ''secrets'', ''8/fields/key'', None), Inr ''-----BEGIN''),
                  ((''GET'', ''secrets'', ''8/fields/cert'', None),
                   Inl (ForeignError () ''404 Not Found''))])"
proof -
  have run: "Server_Secret (logged test_accessor) test_Unmarshal_Secret 8 ([], 0)
     = ((None, Some (ForeignError () ''404 Not Found'')),
        ([((''GET'', ''secrets'', ''8'', None), Inr ''{secret 8}''),
          ((''GET'', ''secrets'', ''8/fields/key'', None), Inr ''-----BEGIN''),
          ((''GET'', ''secrets'', ''8/fields/cert'', None),
           Inl (ForeignError () ''404 Not Found''))], 3))"
    by (simp add: Server_Secret_def logged_def test_accessor_def test_Unmarshal_Secret_def
          secret8_def zero_Secret_def zero_SecretField_def resource_def Itoa_def decimal.simps
          search_filter_text shouldEscape_def upperhex_def)
  have failed:
    "((''GET'', ''secrets'', ''8/fields/cert'', None), Inl (ForeignError () ''404 Not Found''))
       \<in> set (drop (Suc (length ([] :: unit call list)))
                 [((''GET'', ''secrets'', ''8'', None), Inr ''{secret 8}''),
                  ((''GET'', ''secrets'', ''8/fields/key'', None), Inr ''-----BEGIN''),
                  ((''GET'', ''secrets'', ''8/fields/cert'', None),
                   Inl (ForeignError () ''404 Not Found''))])"
    by simp
  from Secret_attachment_failure [OF run failed] run failed show ?thesis
    by simp
qed

text \<open>
  C7. In a fetch whose first call and decoding succeed, the calls after the first are
  requests for fields with \<open>FileAttachmentID \<noteq> 0\<close> only, in field order and at most one
  for each; and a returned secret has as many fields as the decoded one, with every field
  whose \<open>FileAttachmentID\<close> is 0 unchanged, after exactly one call for each other field.
  The example is the fetch of secret 5, whose only field is the password \<^verbatim>\<open>p@ss\<close>.
\<close>

theorem Secret_plain_fields_kept:
  assumes "Server_Secret (logged accessResource) Unmarshal sid (log, w) = ((r, e), (log', w'))"
    and "accessResource ''GET'' ''secrets'' (Itoa sid) None w = (Inr data, w1)"
    and "Unmarshal data = Inr decoded"
  shows "prefix (map fst (drop (Suc (length log)) log'))
           (map (\<lambda>f. (''GET'', ''secrets'', Itoa sid @ ''/fields/'' @ Slug f, None))
              (filter (\<lambda>f. FileAttachmentID f \<noteq> 0) (Fields decoded)))
     \<and> (\<forall>s. r = Some s \<longrightarrow>
           length (Fields s) = length (Fields decoded)
         \<and> (\<forall>i<length (Fields decoded). FileAttachmentID (Fields decoded ! i) = 0
               \<longrightarrow> Fields s ! i = Fields decoded ! i)
         \<and> length (drop (Suc (length log)) log')
             = length (filter (\<lambda>f. FileAttachmentID f \<noteq> 0) (Fields decoded)))"
proof -
  note loop = Server_Secret_logged_loop [OF assms]
  let ?log = "log @ [((''GET'', ''secrets'', Itoa sid, None), Inr data)]"
  from Secret_range_logged_requests [OF loop(1)] obtain calls where
    calls: "log' = ?log @ calls"
      "prefix (map fst calls)
         (map (attachment_request sid) (filter has_attachment (Fields decoded)))"
    by auto
  from calls(1) have dr: "drop (Suc (length log)) log' = calls" by simp
  have reqs: "prefix (map fst (drop (Suc (length log)) log'))
           (map (\<lambda>f. (''GET'', ''secrets'', Itoa sid @ ''/fields/'' @ Slug f, None))
              (filter (\<lambda>f. FileAttachmentID f \<noteq> 0) (Fields decoded)))"
    using calls(2) unfolding dr
    by (simp add: attachment_request_def [abs_def] has_attachment_def [abs_def])
  have kept: "length (Fields s) = length (Fields decoded)
         \<and> (\<forall>i<length (Fields decoded). FileAttachmentID (Fields decoded ! i) = 0
               \<longrightarrow> Fields s ! i = Fields decoded ! i)
         \<and> length (drop (Suc (length log)) log')
             = length (filter (\<lambda>f. FileAttachmentID f \<noteq> 0) (Fields decoded))"
    if "r = Some s" for s
  proof -
    from that Secret_range_logged_Some
      [of accessResource sid 0 "Fields decoded" decoded ?log w1 s e log' w'] loop(1)
    obtain fs where
      fs: "s = decoded\<lparr>Fields := fs\<rparr>" "list_all2 substituted (Fields decoded) fs"
        "log' = ?log @ map (\<lambda>f. (attachment_request sid f, Inr (ItemValue f)))
                         (filter has_attachment fs)"
      by auto
    from fs(3) have "length (drop (Suc (length log)) log')
        = length (map (attachment_request sid) (filter has_attachment fs))"
      by simp
    also have "\<dots> = length (filter (\<lambda>f. FileAttachmentID f \<noteq> 0) (Fields decoded))"
      unfolding substituted_requests [OF fs(2)] by (simp add: has_attachment_def [abs_def])
    finally have n: "length (drop (Suc (length log)) log')
        = length (filter (\<lambda>f. FileAttachmentID f \<noteq> 0) (Fields decoded))" .
    have "Fields s ! i = Fields decoded ! i"
      if "i < length (Fields decoded)" "FileAttachmentID (Fields decoded ! i) = 0" for i
      using list_all2_nthD [OF fs(2) that(1)] that(2) fs(1)
      by (simp add: substituted_def has_attachment_def)
    moreover have "length (Fields s) = length (Fields decoded)"
      using list_all2_lengthD [OF fs(2)] fs(1) by simp
    ultimately show ?thesis using n by blast
  qed
  from reqs kept show ?thesis by blast
qed

theorem Secret_plain_fields_kept_witness:
  "Server_Secret (logged test_accessor) test_Unmarshal_Secret 5 ([], 0)
     = ((Some secret5, None), ([((''GET'', ''secrets'', ''5'', None), Inr ''{secret 5}'')], 1))
   \<and> test_accessor ''GET'' ''secrets'' (Itoa 5) None 0 = (Inr ''{secret 5}'', 1)
   \<and> test_Unmarshal_Secret ''{secret 5}'' = Inr secret5
   \<and> FieldName (Fields secret5 ! 0) = ''password''
   \<and> FileAttachmentID (Fields secret5 ! 0) = 0
   \<and> ItemValue (Fields secret5 ! 0) = ''p@ss''
   \<and> length (drop (Suc (length ([] :: unit call list)))
               [((''GET'', ''secrets'', ''5'', None), Inr ''{secret 5}'' :: unit error + bytes)]) = 0"
proof -
  have run: "Server_Secret (logged test_accessor) test_Unmarshal_Secret 5 ([], 0)
     = ((Some secret5, None), ([((''GET'', ''secrets'', ''5'', None), Inr ''{secret 5}'')], 1))"
    by (simp add: Server_Secret_def logged_def test_accessor_def test_Unmarshal_Secret_def
          secret5_def zero_Secret_def zero_SecretField_def resource_def Itoa_def decimal.simps)
  have first: "test_accessor ''GET'' ''secrets'' (Itoa 5) None 0 = (Inr ''{secret 5}'', 1)"
    by (simp add: test_accessor_def Itoa_def decimal.simps)
  have decoded: "test_Unmarshal_Secret ''{secret 5}'' = Inr secret5"
    by (simp add: test_Unmarshal_Secret_def)
  from Secret_plain_fields_kept
         [where accessResource = test_accessor and Unmarshal = test_Unmarshal_Secret,
          OF run first decoded] run first decoded
  show ?thesis
    by (simp add: secret5_def zero_Secret_def zero_SecretField_def)
qed

text \<open>
  C8. When the first call succeeds and its bytes do not decode, the fetch returns the
  error \<^verbatim>\<open>parsing response from /secrets/{id}: {cause}\<close>; when the first call fails,
  it returns the error of the accessor itself.
\<close>

theorem Secret_primary_errors:
  "(\<forall>data w' err. accessResource ''GET'' resource (Itoa sid) None w = (Inr data, w')
        \<and> Unmarshal data = Inl err
      \<longrightarrow> Server_Secret accessResource Unmarshal sid w
            = ((None, Some (Errorf (''parsing response from /secrets/'' @ Itoa sid @ '': ''
                                      @ Error err))), w'))
   \<and> (\<forall>w' err. accessResource ''GET'' resource (Itoa sid) None w = (Inl err, w')
      \<longrightarrow> Server_Secret accessResource Unmarshal sid w = ((None, Some err), w'))"
  by (simp add: Server_Secret_def resource_def)

theorem Secret_primary_errors_witness:
  "test_accessor ''GET'' resource (Itoa 9) None 0 = (Inr ''<html>'', 1)
   \<and> test_Unmarshal_Secret ''<html>'' = Inl (ForeignError () ''invalid character'')
   \<and> Server_Secret test_accessor test_Unmarshal_Secret 9 0
       = ((None, Some (Errorf ''parsing response from /secrets/9: invalid character'')), 1)
   \<and> test_accessor ''GET'' resource (Itoa 1) None 0 = (Inl (ForeignError () ''404 Not Found''), 1)
   \<and> Server_Secret test_accessor test_Unmarshal_Secret 1 0
       = ((None, Some (ForeignError () ''404 Not Found'')), 1)"
proof -
  have a9: "test_accessor ''GET'' resource (Itoa 9) None 0 = (Inr ''<html>'', 1)"
    by (simp add: test_accessor_def resource_def Itoa_def decimal.simps)
  have u9: "test_Unmarshal_Secret ''<html>'' = Inl (ForeignError () ''invalid character'')"
    by (simp add: test_Unmarshal_Secret_def)
  have a1: "test_accessor ''GET'' resource (Itoa 1) None 0
              = (Inl (ForeignError () ''404 Not Found''), 1)"
    by (simp add: test_accessor_def resource_def Itoa_def decimal.simps search_filter_text
          shouldEscape_def upperhex_def)
  have i9: "Itoa 9 = ''9''"
    by (simp add: Itoa_def decimal.simps)
  from Secret_primary_errors
         [where accessResource = test_accessor and Unmarshal = test_Unmarshal_Secret
            and sid = 9 and w = 0] a9 u9
  have r9: "Server_Secret test_accessor test_Unmarshal_Secret 9 0
       = ((None, Some (Errorf (''parsing response from /secrets/'' @ Itoa 9 @ '': ''
                                 @ Error (ForeignError () ''invalid character'')))), 1)"
    by blast
  from Secret_primary_errors
         [where accessResource = test_accessor and Unmarshal = test_Unmarshal_Secret
            and sid = 1 and w = 0] a1
  have r1: "Server_Secret test_accessor test_Unmarshal_Secret 1 0
       = ((None, Some (ForeignError () ''404 Not Found'')), 1)"
    by blast
  from a9 u9 a1 r1 r9 show ?thesis
    by (simp add: i9)
qed

subsection \<open>Resolving a name\<close>

text \<open>
  C3. When the search response decodes to two or more records, the resolution returns
  the error \<open>MultipleSecretsFoundError\<close> whose \<open>IDs\<close> are the \<open>ID\<close>s of all the
  records, in the order of the response, and whose \<open>searchedName\<close> is the given name.
\<close>

theorem SecretNameToID_multiple:
  assumes "accessResource ''GET'' resource (''?'' @ search_filter name) None w = (Inr data, w')"
    and "Unmarshal data = Inr records"
    and "2 \<le> length records"
  shows "Server_SecretNameToID accessResource Unmarshal name w =
           ((0, Some (MultipleSecretsFoundError (map search_record.ID records) name)), w')"
  using assms
  by (simp add: Server_SecretNameToID_def search_filter_def ids_range_all)

theorem SecretNameToID_multiple_witness:
  "test_accessor ''GET'' resource (''?'' @ search_filter ''db-creds'') None 0
       = (Inr ''{two records}'', 1)
   \<and> test_Unmarshal_Records ''{two records}''
       = Inr [zero_record\<lparr>search_record.ID := 10\<rparr>, zero_record\<lparr>search_record.ID := 11\<rparr>]
   \<and> Server_SecretNameToID test_accessor test_Unmarshal_Records ''db-creds'' 0
       = ((0, Some (MultipleSecretsFoundError [10, 11] ''db-creds'')), 1)"
proof -
  have a: "test_accessor ''GET'' resource (''?'' @ search_filter ''db-creds'') None 0
             = (Inr ''{two records}'', 1)"
    by (simp add: test_accessor_def resource_def search_filter_text shouldEscape_def)
  have u: "test_Unmarshal_Records ''{two records}''
             = Inr [zero_record\<lparr>search_record.ID := 10\<rparr>, zero_record\<lparr>search_record.ID := 11\<rparr>]"
    by (simp add: test_Unmarshal_Records_def)
  have l: "2 \<le> length [zero_record\<lparr>search_record.ID := 10\<rparr>, zero_record\<lparr>search_record.ID := 11\<rparr>]"
    by simp
  show ?thesis
    using SecretNameToID_multiple
            [where accessResource = test_accessor and Unmarshal = test_Unmarshal_Records,
             OF a u l] a u
    by (simp add: zero_record_def)
qed

text \<open>
  C4. When the search response decodes to exactly one record, the resolution returns
  the \<open>ID\<close> of that record and no error.
\<close>

theorem SecretNameToID_single:
  assumes "accessResource ''GET'' resource (''?'' @ search_filter name) None w = (Inr data, w')"
    and "Unmarshal data = Inr [r]"
  shows "Server_SecretNameToID accessResource Unmarshal name w = ((search_record.ID r, None), w')"
  using assms
  by (simp add: Server_SecretNameToID_def search_filter_def)

theorem SecretNameToID_single_witness:
  "test_accessor ''GET'' resource (''?'' @ search_filter ''web'') None 0
       = (Inr ''{one record}'', 1)
   \<and> test_Unmarshal_Records ''{one record}'' = Inr [zero_record\<lparr>search_record.ID := 12\<rparr>]
   \<and> Server_SecretNameToID test_accessor test_Unmarshal_Records ''web'' 0 = ((12, None), 1)"
proof -
  have a: "test_accessor ''GET'' resource (''?'' @ search_filter ''web'') None 0
             = (Inr ''{one record}'', 1)"
    by (simp add: test_accessor_def resource_def search_filter_text shouldEscape_def)
  have u: "test_Unmarshal_Records ''{one record}'' = Inr [zero_record\<lparr>search_record.ID := 12\<rparr>]"
    by (simp add: test_Unmarshal_Records_def)
  show ?thesis
    using SecretNameToID_single
            [where accessResource = test_accessor and Unmarshal = test_Unmarshal_Records,
             OF a u] a u
    by (simp add: zero_record_def)
qed

text \<open>
  C5. When the search response decodes to no record, the resolution returns an error
  made by \<^verbatim>\<open>fmt.Errorf\<close>, whose message is
  \<^verbatim>\<open>no secrets found with name '{name}'\<close>, and which is not a
  \<open>MultipleSecretsFoundError\<close>.
\<close>

theorem SecretNameToID_none:
  assumes "accessResource ''GET'' resource (''?'' @ search_filter name) None w = (Inr data, w')"
    and "Unmarshal data = Inr []"
  shows "\<exists>err. Server_SecretNameToID accessResource Unmarshal name w = ((0, Some err), w')
           \<and> err = Errorf (''no secrets found with name '' @ [CHR 0x27] @ name @ [CHR 0x27])
           \<and> Error err = ''no secrets found with name '' @ [CHR 0x27] @ name @ [CHR 0x27]
           \<and> (\<forall>ids n. err \<noteq> MultipleSecretsFoundError ids n)"
  using assms
  by (simp add: Server_SecretNameToID_def search_filter_def)

theorem SecretNameToID_none_witness:
  "test_accessor ''GET'' resource (''?'' @ search_filter ''nothing'') None 0
       = (Inr ''{no records}'', 1)
   \<and> test_Unmarshal_Records ''{no records}'' = Inr []
   \<and> Server_SecretNameToID test_accessor test_Unmarshal_Records ''nothing'' 0
       = ((0, Some (Errorf (''no secrets found with name '' @ [CHR 0x27] @ ''nothing''
                              @ [CHR 0x27]))), 1)"
proof -
  have a: "test_accessor ''GET'' resource (''?'' @ search_filter ''nothing'') None 0
             = (Inr ''{no records}'', 1)"
    by (simp add: test_accessor_def resource_def search_filter_text shouldEscape_def)
  have u: "test_Unmarshal_Records ''{no records}'' = Inr []"
    by (simp add: test_Unmarshal_Records_def)
  show ?thesis
    using SecretNameToID_none
            [where accessResource = test_accessor and Unmarshal = test_Unmarshal_Records,
             OF a u] a u
    by auto
qed

text \<open>
  C9. The resolution of a name makes exactly one call: \<^verbatim>\<open>GET\<close> on the resource
  \<^verbatim>\<open>secrets\<close> with the path \<^verbatim>\<open>?\<close> followed by the encoding of the three
  parameters, which is
  \<^verbatim>\<open>filter.doNotCalculateTotal=true&filter.searchFieldSlug=name&filter.searchText=\<close>
  followed by the escaped name.
\<close>

theorem SecretNameToID_request:
  "fst (snd (Server_SecretNameToID (logged accessResource) Unmarshal name (log, w)))
     = log @ [((''GET'', ''secrets'', ''?'' @ search_filter name, None),
               fst (accessResource ''GET'' ''secrets'' (''?'' @ search_filter name) None w))]
   \<and> search_filter name
     = ''filter.doNotCalculateTotal=true&filter.searchFieldSlug=name&filter.searchText=''
         @ QueryEscape name"
proof
  show "fst (snd (Server_SecretNameToID (logged accessResource) Unmarshal name (log, w)))
     = log @ [((''GET'', ''secrets'', ''?'' @ search_filter name, None),
               fst (accessResource ''GET'' ''secrets'' (''?'' @ search_filter name) None w))]"
    unfolding Server_SecretNameToID_def Let_def search_filter_def [symmetric] resource_def
    by (simp add: logged_def split: prod.splits sum.splits)
qed (rule search_filter_text)

theorem SecretNameToID_request_witness:
  "fst (snd (Server_SecretNameToID (logged test_accessor) test_Unmarshal_Records
               ''db creds/1'' ([], 0)))
     = [((''GET'', ''secrets'',
          ''?filter.doNotCalculateTotal=true&filter.searchFieldSlug=name&filter.searchText=db+creds%2F1'',
          None), Inl (ForeignError () ''404 Not Found''))]"
  using SecretNameToID_request [of test_accessor test_Unmarshal_Records "''db creds/1''" "[]" 0]
  by (simp add: test_accessor_def shouldEscape_def upperhex_def)

subsection \<open>Looking a field up\<close>

text \<open>
  C6. The lookup returns the \<open>ItemValue\<close> of the first field, in the order of
  \<open>Fields\<close>, whose \<open>FieldName\<close> or \<open>Slug\<close> is equal to the given name, with
  \<open>True\<close>; when no field matches it returns the empty string with \<open>False\<close>. Strings
  are equal when they have the same bytes. In the example the slug of the second field
  wins over the name of the third, and a name in another case matches nothing.
\<close>

theorem Secret_Field_first_match:
  "(\<forall>i<length (Fields s).
      (fieldName = FieldName (Fields s ! i) \<or> fieldName = Slug (Fields s ! i))
      \<and> (\<forall>j<i. fieldName \<noteq> FieldName (Fields s ! j) \<and> fieldName \<noteq> Slug (Fields s ! j))
      \<longrightarrow> Secret_Field s fieldName = (ItemValue (Fields s ! i), True))
   \<and> ((\<forall>f\<in>set (Fields s). fieldName \<noteq> FieldName f \<and> fieldName \<noteq> Slug f)
      \<longrightarrow> Secret_Field s fieldName = ('''', False))"
  by (simp add: Secret_Field_def Field_range_first Field_range_none)

theorem Secret_Field_first_match_witness:
  "1 < length (Fields secret_lookup)
   \<and> ''password'' = Slug (Fields secret_lookup ! 1)
   \<and> ''password'' \<noteq> FieldName (Fields secret_lookup ! 0)
   \<and> ''password'' \<noteq> Slug (Fields secret_lookup ! 0)
   \<and> Secret_Field secret_lookup ''password'' = (''b'', True)
   \<and> list_all (\<lambda>f. ''PASSWORD'' \<noteq> FieldName f \<and> ''PASSWORD'' \<noteq> Slug f) (Fields secret_lookup)
   \<and> Secret_Field secret_lookup ''PASSWORD'' = ('''', False)"
proof -
  have h: "1 < length (Fields secret_lookup)"
    "''password'' = Slug (Fields secret_lookup ! 1)"
    "''password'' \<noteq> FieldName (Fields secret_lookup ! 0)"
    "''password'' \<noteq> Slug (Fields secret_lookup ! 0)"
    "list_all (\<lambda>f. ''PASSWORD'' \<noteq> FieldName f \<and> ''PASSWORD'' \<noteq> Slug f) (Fields secret_lookup)"
    by (simp_all add: secret_lookup_def zero_Secret_def zero_SecretField_def)
  from h(3,4) have before: "\<forall>j<1. ''password'' \<noteq> FieldName (Fields secret_lookup ! j)
                               \<and> ''password'' \<noteq> Slug (Fields secret_lookup ! j)"
    by simp
  from h(5) have nowhere:
    "\<forall>f\<in>set (Fields secret_lookup). ''PASSWORD'' \<noteq> FieldName f \<and> ''PASSWORD'' \<noteq> Slug f"
    by (simp add: list_all_iff)
  from Secret_Field_first_match [of secret_lookup "''password''"] h(1,2) before
  have "Secret_Field secret_lookup ''password'' = (ItemValue (Fields secret_lookup ! 1), True)"
    by blast
  then have found: "Secret_Field secret_lookup ''password'' = (''b'', True)"
    by (simp add: secret_lookup_def zero_Secret_def zero_SecretField_def)
  from Secret_Field_first_match [of secret_lookup "''PASSWORD''"] nowhere
  have "Secret_Field secret_lookup ''PASSWORD'' = ('''', False)"
    by blast
  with h found show ?thesis
    by blast
qed

subsection \<open>The two copies agree\<close>

text \<open>
  C10. The fetch and the lookup of \<^verbatim>\<open>unnamed/part_000\<close> return what those of
  \<^verbatim>\<open>server/secret.go\<close> return: the same result, the same error and the same state of
  the world, for every accessor, decoder, identifier, secret and field name.
\<close>

theorem part000_equivalent:
  "Server_Secret_part000 accessResource Unmarshal sid w = Server_Secret accessResource Unmarshal sid w
   \<and> Secret_Field_part000 s fieldName = Secret_Field s fieldName"
  unfolding Server_Secret_part000_def Server_Secret_def Secret_Field_part000_def
    Secret_Field_def Secret_range_part000_eq Field_range_part000_eq resource_def
    resource_part000_def
  by simp

theorem part000_equivalent_witness:
  "Server_Secret_part000 test_accessor test_Unmarshal_Secret 7 0
     = Server_Secret test_accessor test_Unmarshal_Secret 7 0
   \<and> Secret_Field_part000 secret_lookup ''password'' = Secret_Field secret_lookup ''password''"
  using part000_equivalent [of test_accessor test_Unmarshal_Secret 7 0 secret_lookup "''password''"]
  by simp

end
